theory Spec2Isabelle
  imports Main "HOL-Library.Word"
begin

section \<open>FetchBodyUtility: body streams of happy-dom's fetch implementation\<close>

text \<open>
  A shallow embedding of \<^verbatim>\<open>FetchBodyUtility.getBodyStream\<close> and
  \<^verbatim>\<open>FetchBodyUtility.consumeBodyStream\<close>
  (\<^verbatim>\<open>packages/happy-dom/src/fetch/utilities/FetchBodyUtility.ts\<close>).
  The two methods are translated branch by branch. What they call in the JavaScript
  platform (\<^verbatim>\<open>Buffer\<close>, \<^verbatim>\<open>String\<close>, \<^verbatim>\<open>URLSearchParams\<close>,
  \<^verbatim>\<open>Stream.Readable\<close>) is modelled in the first subsections, each definition under
  the name of the platform function it stands for.
\<close>

subsection \<open>Bytes and JavaScript strings\<close>

text \<open>
  A \<^verbatim>\<open>Buffer\<close> is its sequence of bytes. A JavaScript string is its sequence of UTF-16
  code units, which is what \<^verbatim>\<open>.length\<close> counts. Messages of exceptions and MIME types
  are plain ASCII and are kept as HOL strings.
\<close>

type_synonym byte = "8 word"
type_synonym jsstring = "16 word list"

definition is_high_surrogate :: "16 word \<Rightarrow> bool" where
  "is_high_surrogate u = (0xD800 \<le> u \<and> u \<le> 0xDBFF)"

definition is_low_surrogate :: "16 word \<Rightarrow> bool" where
  "is_low_surrogate u = (0xDC00 \<le> u \<and> u \<le> 0xDFFF)"

definition scalar_of_unit :: "16 word \<Rightarrow> nat" where
  \<comment> \<open>a code unit standing alone: an unpaired surrogate is read as U+FFFD\<close>
  "scalar_of_unit u =
     (if is_high_surrogate u \<or> is_low_surrogate u then 0xFFFD else unat u)"

fun code_points :: "jsstring \<Rightarrow> nat list" where
  "code_points [] = []"
| "code_points [u] = [scalar_of_unit u]"
| "code_points (u # v # us) =
     (if is_high_surrogate u \<and> is_low_surrogate v
      then (0x10000 + (unat u - 0xD800) * 0x400 + (unat v - 0xDC00)) # code_points us
      else scalar_of_unit u # code_points (v # us))"

definition utf8_encode :: "nat \<Rightarrow> byte list" where
  "utf8_encode cp =
     (if cp < 0x80 then [of_nat cp]
      else if cp < 0x800 then [of_nat (0xC0 + cp div 0x40), of_nat (0x80 + cp mod 0x40)]
      else if cp < 0x10000 then
        [of_nat (0xE0 + cp div 0x1000), of_nat (0x80 + cp div 0x40 mod 0x40),
         of_nat (0x80 + cp mod 0x40)]
      else
        [of_nat (0xF0 + cp div 0x40000), of_nat (0x80 + cp div 0x1000 mod 0x40),
         of_nat (0x80 + cp div 0x40 mod 0x40), of_nat (0x80 + cp mod 0x40)])"

definition Buffer_from_string :: "jsstring \<Rightarrow> byte list" where
  \<comment> \<open>\<^verbatim>\<open>Buffer.from(string)\<close>: the UTF-8 encoding of the string\<close>
  "Buffer_from_string s = concat (map utf8_encode (code_points s))"

definition utf16_encode :: "nat \<Rightarrow> jsstring" where
  "utf16_encode cp =
     (if cp < 0x10000 then [of_nat cp]
      else [of_nat (0xD800 + (cp - 0x10000) div 0x400),
            of_nat (0xDC00 + (cp - 0x10000) mod 0x400)])"

definition is_continuation :: "nat \<Rightarrow> bool" where
  "is_continuation b = (0x80 \<le> b \<and> b \<le> 0xBF)"

definition second_byte_ok :: "nat \<Rightarrow> nat \<Rightarrow> bool" where
  \<comment> \<open>the range of the second byte of a sequence, which depends on the lead byte\<close>
  "second_byte_ok b0 b1 =
     (if b0 = 0xE0 then 0xA0 \<le> b1 \<and> b1 \<le> 0xBF
      else if b0 = 0xED then 0x80 \<le> b1 \<and> b1 \<le> 0x9F
      else if b0 = 0xF0 then 0x90 \<le> b1 \<and> b1 \<le> 0xBF
      else if b0 = 0xF4 then 0x80 \<le> b1 \<and> b1 \<le> 0x8F
      else is_continuation b1)"

fun utf8_decode :: "nat list \<Rightarrow> nat list" where
  "utf8_decode [] = []"
| "utf8_decode (b0 # bs) =
     (if b0 < 0x80 then b0 # utf8_decode bs
      else if 0xC2 \<le> b0 \<and> b0 \<le> 0xDF then
        (case bs of
           [] \<Rightarrow> [0xFFFD]
         | b1 # r1 \<Rightarrow>
             if is_continuation b1
             then ((b0 - 0xC0) * 0x40 + (b1 - 0x80)) # utf8_decode r1
             else 0xFFFD # utf8_decode bs)
      else if 0xE0 \<le> b0 \<and> b0 \<le> 0xEF then
        (case bs of
           [] \<Rightarrow> [0xFFFD]
         | b1 # r1 \<Rightarrow>
             if second_byte_ok b0 b1 then
               (case r1 of
                  [] \<Rightarrow> [0xFFFD]
                | b2 # r2 \<Rightarrow>
                    if is_continuation b2
                    then ((b0 - 0xE0) * 0x1000 + (b1 - 0x80) * 0x40 + (b2 - 0x80))
                           # utf8_decode r2
                    else 0xFFFD # utf8_decode r1)
             else 0xFFFD # utf8_decode bs)
      else if 0xF0 \<le> b0 \<and> b0 \<le> 0xF4 then
        (case bs of
           [] \<Rightarrow> [0xFFFD]
         | b1 # r1 \<Rightarrow>
             if second_byte_ok b0 b1 then
               (case r1 of
                  [] \<Rightarrow> [0xFFFD]
                | b2 # r2 \<Rightarrow>
                    if is_continuation b2 then
                      (case r2 of
                         [] \<Rightarrow> [0xFFFD]
                       | b3 # r3 \<Rightarrow>
                           if is_continuation b3
                           then ((b0 - 0xF0) * 0x40000 + (b1 - 0x80) * 0x1000
                                   + (b2 - 0x80) * 0x40 + (b3 - 0x80)) # utf8_decode r3
                           else 0xFFFD # utf8_decode r2)
                    else 0xFFFD # utf8_decode r1)
             else 0xFFFD # utf8_decode bs)
      else 0xFFFD # utf8_decode bs)"

definition Buffer_toString :: "byte list \<Rightarrow> jsstring" where
  \<comment> \<open>\<^verbatim>\<open>buffer.toString()\<close>: UTF-8 decoding, each ill-formed sequence read as U+FFFD\<close>
  "Buffer_toString b = concat (map utf16_encode (utf8_decode (map unat b)))"

definition Buffer_alloc :: "nat \<Rightarrow> byte list" where
  "Buffer_alloc n = replicate n 0"

subsection \<open>Exceptions\<close>

text \<open>
  Of \<^verbatim>\<open>DOMExceptionNameEnum\<close> only the member the two methods use is needed.
  \<open>StreamError\<close> stands for the errors a stream fails with on its own.
\<close>

datatype DOMExceptionNameEnum = invalidStateError

datatype exception =
    DOMException string DOMExceptionNameEnum
  | RangeError string
  | TypeError string
  | StreamError string

fun message :: "exception \<Rightarrow> string" where
  "message (DOMException m _) = m"
| "message (RangeError m) = m"
| "message (TypeError m) = m"
| "message (StreamError m) = m"

fun digits :: "nat \<Rightarrow> string" where
  "digits n =
     (if n < 10 then [''0123456789'' ! n]
      else digits (n div 10) @ [''0123456789'' ! (n mod 10)])"

definition Number_toString :: "int \<Rightarrow> string" where
  \<comment> \<open>an integral number inside a template literal: its decimal digits\<close>
  "Number_toString n = (if n < 0 then CHR ''-'' # digits (nat (- n)) else digits (nat n))"

subsection \<open>Readable streams and the heap of stream objects\<close>

text \<open>
  A chunk is a \<^verbatim>\<open>Buffer\<close> or, for a stream with an encoding set, a string; these are
  the two kinds of chunk the collector handles. What the asynchronous iterator of a
  stream answers to its \<open>i\<close>-th \<^verbatim>\<open>next()\<close> is an \<open>item\<close>: a chunk, the end of the
  iteration, an error, or nothing at all (the promise stays pending). A stream may
  deliver chunks for ever. A stream that another stream is piped into has no data of
  its own: its item \<open>Piped src\<close> says that the answer is taken from the stream at the
  address \<open>src\<close>.

  \<open>readableEnded\<close> and \<open>readableState_ended\<close> are what \<^verbatim>\<open>body.readableEnded\<close> and
  \<^verbatim>\<open>body._readableState?.ended\<close> hold once the iteration is over (\<open>None\<close> is
  \<^verbatim>\<open>undefined\<close>). \<open>has_destroy\<close> is \<^verbatim>\<open>typeof body.destroy === 'function'\<close>;
  \<open>destroy_calls\<close> records the arguments \<^verbatim>\<open>destroy\<close> was called with, \<open>pipes\<close> the
  destinations registered by \<^verbatim>\<open>pipe\<close>.
\<close>

type_synonym addr = nat

datatype chunk = BufferChunk "byte list" | StringChunk jsstring

fun chunk_length :: "chunk \<Rightarrow> nat" where
  "chunk_length (BufferChunk b) = length b"
| "chunk_length (StringChunk s) = length s"

datatype item = Value chunk | Done | Rejected exception | Pending | Piped addr

record readable =
  source :: "nat \<Rightarrow> item"
  position :: nat
  readableEnded :: "bool option"
  readableState_ended :: "bool option"
  has_destroy :: bool
  destroy_calls :: "exception list"
  pipes :: "addr list"

record heap =
  objects :: "addr \<Rightarrow> readable"
  fresh :: addr

definition alloc :: "readable \<Rightarrow> heap \<Rightarrow> addr \<times> heap" where
  "alloc obj h = (fresh h, h\<lparr>objects := (objects h)(fresh h := obj), fresh := fresh h + 1\<rparr>)"

definition destroy :: "readable \<Rightarrow> exception \<Rightarrow> readable" where
  "destroy body err = body\<lparr>destroy_calls := destroy_calls body @ [err]\<rparr>"

subsection \<open>JavaScript values\<close>

text \<open>
  The values the two methods tell apart at run time. \<open>'fd\<close> is \<^verbatim>\<open>FormData\<close>, which
  only the multipart collaborator looks into. An \<open>ArrayBufferView\<close> is its underlying
  buffer, its \<^verbatim>\<open>byteOffset\<close> and its \<^verbatim>\<open>byteLength\<close>; an \<^verbatim>\<open>ArrayBuffer\<close> that was
  transferred is detached, it has no bytes any more, and so is a view of it.
  The values that are an instance of none of the classes are the primitive values (a
  boolean, a string) and the other objects. Of such an object the methods use nothing
  but \<^verbatim>\<open>String(body)\<close>, so \<open>Object\<close> carries what that call does: the string returned,
  or the exception thrown (a \<^verbatim>\<open>TypeError\<close> for an object that has no \<^verbatim>\<open>toString\<close>, such
  as \<^verbatim>\<open>Object.create(null)\<close>, or whatever its \<^verbatim>\<open>toString\<close> throws).
\<close>

record blob =
  blob_buffer :: "byte list"
  blob_type :: string

datatype primitive = JSBoolean bool | JSString jsstring

datatype 'fd js_value =
    Null
  | Undefined
  | URLSearchParams "(jsstring \<times> jsstring) list"
  | Blob blob
  | Buffer "byte list"
  | ArrayBuffer "byte list"
  | ArrayBufferView "byte list" nat nat
  | DetachedArrayBuffer
  | DetachedArrayBufferView
  | Stream addr
  | FormData 'fd
  | Primitive primitive
  | Object "exception + jsstring"

subsection \<open>Platform functions of getBodyStream\<close>

definition ascii :: "string \<Rightarrow> jsstring" where
  "ascii cs = map of_char cs"

fun String_of :: "primitive \<Rightarrow> jsstring" where
  \<comment> \<open>\<^verbatim>\<open>String(body)\<close> for a primitive value, where it cannot throw\<close>
  "String_of (JSString s) = s"
| "String_of (JSBoolean b) = (if b then ascii ''true'' else ascii ''false'')"

definition hex_digit :: "nat \<Rightarrow> 16 word" where
  "hex_digit n = of_nat (if n < 10 then 0x30 + n else 0x37 + n)"

definition unreserved :: "byte \<Rightarrow> bool" where
  \<comment> \<open>the bytes the urlencoded serializer leaves as they are: \<^verbatim>\<open>* - . _\<close>, digits, letters\<close>
  "unreserved b =
     (b = 0x2A \<or> b = 0x2D \<or> b = 0x2E \<or> b = 0x5F \<or> (0x30 \<le> b \<and> b \<le> 0x39)
      \<or> (0x41 \<le> b \<and> b \<le> 0x5A) \<or> (0x61 \<le> b \<and> b \<le> 0x7A))"

definition urlencode_byte :: "byte \<Rightarrow> jsstring" where
  "urlencode_byte b =
     (if b = 0x20 then [0x2B]
      else if unreserved b then [ucast b]
      else [0x25, hex_digit (unat b div 16), hex_digit (unat b mod 16)])"

definition urlencode :: "jsstring \<Rightarrow> jsstring" where
  "urlencode s = concat (map urlencode_byte (Buffer_from_string s))"

fun URLSearchParams_toString :: "(jsstring \<times> jsstring) list \<Rightarrow> jsstring" where
  \<comment> \<open>\<^verbatim>\<open>body.toString()\<close>: the \<^verbatim>\<open>application/x-www-form-urlencoded\<close> serialization,
      \<^verbatim>\<open>name=value\<close> pairs joined by \<^verbatim>\<open>&\<close>\<close>
  "URLSearchParams_toString [] = []"
| "URLSearchParams_toString [(n, v)] = urlencode n @ [0x3D] @ urlencode v"
| "URLSearchParams_toString ((n, v) # p # ps) =
     urlencode n @ [0x3D] @ urlencode v @ [0x26] @ URLSearchParams_toString (p # ps)"

definition Blob_size :: "blob \<Rightarrow> nat" where
  \<comment> \<open>Modelled from the spec: the getter \<^verbatim>\<open>Blob.size\<close> (the class \<^verbatim>\<open>Blob\<close> is not among
      the sources), "blob byte size", the length of the blob's underlying bytes.\<close>
  "Blob_size b = length (blob_buffer b)"

definition Buffer_from_arrayBuffer :: "byte list \<Rightarrow> nat \<Rightarrow> nat \<Rightarrow> exception + byte list" where
  \<comment> \<open>\<^verbatim>\<open>Buffer.from(arrayBuffer, byteOffset, length)\<close>: the window of the buffer, a
      \<^verbatim>\<open>RangeError\<close> when the window leaves the buffer\<close>
  "Buffer_from_arrayBuffer buffer byteOffset byteLength =
     (if length buffer < byteOffset
      then Inl (RangeError ''\"offset\" is outside of buffer bounds'')
      else if length buffer - byteOffset < byteLength
      then Inl (RangeError ''\"length\" is outside of buffer bounds'')
      else Inr (take byteLength (drop byteOffset buffer)))"

definition Readable_from :: "byte list \<Rightarrow> readable" where
  \<comment> \<open>\<^verbatim>\<open>Stream.Readable.from(buffer)\<close>: a new stream that delivers the buffer as its one
      chunk and ends\<close>
  "Readable_from buffer =
     \<lparr>source = (\<lambda>i. if i = 0 then Value (BufferChunk buffer) else Done),
      position = 0, readableEnded = Some True, readableState_ended = Some True,
      has_destroy = True, destroy_calls = [], pipes = []\<rparr>"

definition detached_error :: exception where
  \<comment> \<open>what \<^verbatim>\<open>Buffer.from\<close> throws when it is to wrap a detached \<^verbatim>\<open>ArrayBuffer\<close>\<close>
  "detached_error = TypeError ''Cannot perform Construct on a detached ArrayBuffer''"

text \<open>
  \<^verbatim>\<open>body.pipe(stream)\<close> makes the source flow into the destination: every chunk the
  destination delivers has been taken from the source, which its owner then no longer
  gets. The new \<^verbatim>\<open>PassThrough\<close> therefore answers with \<open>Piped src\<close>, and \<open>pipe\<close>
  registers it with the source. The flow is modelled at the pace of the reader of the
  destination (a chunk leaves the source when the destination delivers it), not at the
  pace of the event loop, which lets the source run ahead by the size of the
  destination's buffer.
\<close>

definition written :: "item \<Rightarrow> item" where
  \<comment> \<open>what \<^verbatim>\<open>pipe\<close> makes of an answer of its source: a chunk is written as bytes, the end
      ends the destination, an error is not passed on and leaves the destination open\<close>
  "written x =
     (case x of
        Value (BufferChunk b) \<Rightarrow> Value (BufferChunk b)
      | Value (StringChunk s) \<Rightarrow> Value (BufferChunk (Buffer_from_string s))
      | Done \<Rightarrow> Done
      | Rejected e \<Rightarrow> Pending
      | Pending \<Rightarrow> Pending
      | Piped src \<Rightarrow> Pending)"

definition PassThrough :: "addr \<Rightarrow> readable" where
  \<comment> \<open>\<^verbatim>\<open>new Stream.PassThrough()\<close>, fed by \<^verbatim>\<open>body.pipe\<close> from the stream at \<open>src\<close>\<close>
  "PassThrough src =
     \<lparr>source = (\<lambda>i. Piped src),
      position = 0, readableEnded = Some True, readableState_ended = Some True,
      has_destroy = True, destroy_calls = [], pipes = []\<rparr>"

definition pipe :: "addr \<Rightarrow> addr \<Rightarrow> heap \<Rightarrow> heap" where
  \<comment> \<open>\<^verbatim>\<open>body.pipe(stream)\<close> registers the destination with the source\<close>
  "pipe a dest h =
     h\<lparr>objects := (objects h)(a := (objects h a)\<lparr>pipes := pipes (objects h a) @ [dest]\<rparr>)\<rparr>"

subsection \<open>getBodyStream\<close>

record descriptor =
  stream :: "addr option"
  contentType :: "string option"
  contentLength :: "nat option"

text \<open>
  \<open>formDataToStream\<close> is \<^verbatim>\<open>MultipartFormDataParser.formDataToStream\<close>, the multipart
  collaborator, taken as a parameter: it returns its descriptor or throws. The result
  of \<open>getBodyStream\<close> is the returned object or the exception thrown, and the heap with
  the streams the call created. \<open>fallback\<close> is the end of the method, from
  \<^verbatim>\<open>String(body)\<close> on, given what that call does.
\<close>

definition fallback :: "exception + jsstring \<Rightarrow> heap \<Rightarrow> (exception + descriptor) \<times> heap" where
  "fallback coerced h =
     (case coerced of
        Inl e \<Rightarrow> (Inl e, h)
      | Inr bodyAsString \<Rightarrow>
          (let (a, h') = alloc (Readable_from (Buffer_from_string bodyAsString)) h
           in (Inr \<lparr>stream = Some a, contentType = None,
                    contentLength = Some (length bodyAsString)\<rparr>, h')))"

definition getBodyStream ::
  "('w \<Rightarrow> 'fd \<Rightarrow> heap \<Rightarrow> (exception + descriptor) \<times> heap) \<Rightarrow> 'w \<Rightarrow> 'fd js_value \<Rightarrow> heap
     \<Rightarrow> (exception + descriptor) \<times> heap"
where
  "getBodyStream formDataToStream window body h =
     (case body of
        Null \<Rightarrow> (Inr \<lparr>stream = None, contentType = None, contentLength = None\<rparr>, h)
      | Undefined \<Rightarrow> (Inr \<lparr>stream = None, contentType = None, contentLength = None\<rparr>, h)
      | URLSearchParams params \<Rightarrow>
          (let bodyAsString = URLSearchParams_toString params;
               (a, h') = alloc (Readable_from (Buffer_from_string bodyAsString)) h
           in (Inr \<lparr>stream = Some a, contentType = None,
                    contentLength = Some (length bodyAsString)\<rparr>, h'))
      | Blob b \<Rightarrow>
          (let (a, h') = alloc (Readable_from (blob_buffer b)) h
           in (Inr \<lparr>stream = Some a, contentType = Some (blob_type b),
                    contentLength = Some (Blob_size b)\<rparr>, h'))
      | Buffer b \<Rightarrow>
          (let (a, h') = alloc (Readable_from b) h
           in (Inr \<lparr>stream = Some a, contentType = None, contentLength = Some (length b)\<rparr>, h'))
      | ArrayBuffer b \<Rightarrow>
          (let (a, h') = alloc (Readable_from b) h
           in (Inr \<lparr>stream = Some a, contentType = None, contentLength = Some (length b)\<rparr>, h'))
      | DetachedArrayBuffer \<Rightarrow> (Inl detached_error, h)
      | ArrayBufferView buffer byteOffset byteLength \<Rightarrow>
          (case Buffer_from_arrayBuffer buffer byteOffset byteLength of
             Inl e \<Rightarrow> (Inl e, h)
           | Inr b \<Rightarrow>
               (let (a, h') = alloc (Readable_from b) h
                in (Inr \<lparr>stream = Some a, contentType = None,
                         contentLength = Some byteLength\<rparr>, h')))
      | DetachedArrayBufferView \<Rightarrow> (Inl detached_error, h)
      | Stream src \<Rightarrow>
          (let (a, h') = alloc (PassThrough src) h
           in (Inr \<lparr>stream = Some a, contentType = None, contentLength = None\<rparr>,
               pipe src a h'))
      | FormData fd \<Rightarrow> formDataToStream window fd h
      | Primitive p \<Rightarrow> fallback (Inr (String_of p)) h
      | Object coerced \<Rightarrow> fallback coerced h)"

subsection \<open>consumeBodyStream\<close>

definition sizeError :: "int \<Rightarrow> exception" where
  "sizeError sz =
     DOMException (''Content size as reached the limit \"'' @ Number_toString sz @ ''\".'')
       invalidStateError"

text \<open>
  \<open>next_item a h\<close> is one \<^verbatim>\<open>next()\<close> of the iterator of the stream at \<open>a\<close>: the
  answer and the heap after it. A chunk is taken from the stream that has it, which
  for a piped stream is its source; \<open>None\<close> when the streams are piped in a circle.
\<close>

partial_function (option) next_item :: "addr \<Rightarrow> heap \<Rightarrow> (item \<times> heap) option" where
  "next_item a h =
     (case source (objects h a) (position (objects h a)) of
        Piped src \<Rightarrow> Option.bind (next_item src h) (\<lambda>(x, h'). Some (written x, h'))
      | Value chunk \<Rightarrow>
          Some (Value chunk,
                h\<lparr>objects := (objects h)
                   (a := (objects h a)\<lparr>position := position (objects h a) + 1\<rparr>)\<rparr>)
      | Done \<Rightarrow> Some (Done, h)
      | Rejected e \<Rightarrow> Some (Rejected e, h)
      | Pending \<Rightarrow> Some (Pending, h))"

text \<open>
  The \<^verbatim>\<open>for await\<close> loop over the stream at \<open>a\<close>. It returns the chunks and the byte
  count when the iterator is done, or the exception that leaves the loop, together
  with the heap as the loop leaves it; \<open>None\<close> when the loop never ends. Of what
  happens to the streams only the answers taken and the calls of \<^verbatim>\<open>destroy\<close> that the
  method makes are recorded. (\<open>next_item\<close> never answers \<open>Piped\<close>; the case is there
  for the \<open>case\<close> to be complete.)
\<close>

partial_function (option) read_loop ::
  "int \<Rightarrow> addr \<Rightarrow> heap \<Rightarrow> chunk list \<Rightarrow> nat \<Rightarrow> ((exception + chunk list \<times> nat) \<times> heap) option"
where
  "read_loop sz a h chunks bytes =
     (case next_item a h of
        None \<Rightarrow> None
      | Some (x, h') \<Rightarrow>
          (case x of
             Pending \<Rightarrow> None
           | Piped src \<Rightarrow> None
           | Rejected e \<Rightarrow> Some (Inl e, h')
           | Done \<Rightarrow> Some (Inr (chunks, bytes), h')
           | Value chunk \<Rightarrow>
               (if sz \<noteq> 0 \<and> int bytes + int (chunk_length chunk) > sz
                then Some (Inl (sizeError sz),
                           if has_destroy (objects h' a)
                           then h'\<lparr>objects := (objects h')
                                  (a := destroy (objects h' a) (sizeError sz))\<rparr>
                           else h')
                else read_loop sz a h' (chunks @ [chunk]) (bytes + chunk_length chunk))))"

fun Array_join :: "chunk list \<Rightarrow> jsstring" where
  \<comment> \<open>\<^verbatim>\<open>chunks.join('')\<close>: an element that is not a string is converted by its \<^verbatim>\<open>toString()\<close>\<close>
  "Array_join [] = []"
| "Array_join (StringChunk s # cs) = s @ Array_join cs"
| "Array_join (BufferChunk b # cs) = Buffer_toString b @ Array_join cs"

fun concat_from :: "nat \<Rightarrow> chunk list \<Rightarrow> exception + byte list" where
  "concat_from i [] = Inr []"
| "concat_from i (BufferChunk b # cs) =
     (case concat_from (i + 1) cs of Inl e \<Rightarrow> Inl e | Inr bs \<Rightarrow> Inr (b @ bs))"
| "concat_from i (StringChunk s # cs) =
     Inl (TypeError (''The \"list['' @ digits i
        @ '']\" argument must be an instance of Buffer or Uint8Array.''))"

definition Buffer_concat :: "chunk list \<Rightarrow> nat \<Rightarrow> exception + byte list" where
  \<comment> \<open>\<^verbatim>\<open>Buffer.concat(list, totalLength)\<close>: the empty buffer for the empty list, else a
      buffer of exactly \<open>totalLength\<close> bytes, the elements copied in order, cut or filled
      with zeros; a \<^verbatim>\<open>TypeError\<close> at the first element that is not a buffer (its message
      is kept up to the offending index). The platform's bound on the length of a buffer
      is left out.\<close>
  "Buffer_concat list totalLength =
     (if list = [] then Inr []
      else
        (case concat_from 0 list of
           Inl e \<Rightarrow> Inl e
         | Inr bs \<Rightarrow> Inr (take totalLength bs @ replicate (totalLength - length bs) 0)))"

definition first_is_string :: "chunk list \<Rightarrow> bool" where
  \<comment> \<open>\<^verbatim>\<open>typeof chunks[0] === 'string'\<close>\<close>
  "first_is_string chunks = (case chunks of StringChunk s # _ \<Rightarrow> True | _ \<Rightarrow> False)"

definition create_buffer :: "chunk list \<Rightarrow> nat \<Rightarrow> exception + byte list" where
  \<comment> \<open>the final \<^verbatim>\<open>try\<close> \<dots> \<^verbatim>\<open>catch\<close>\<close>
  "create_buffer chunks bytes =
     (if first_is_string chunks then Inr (Buffer_from_string (Array_join chunks))
      else
        (case Buffer_concat chunks bytes of
           Inr b \<Rightarrow> Inr b
         | Inl error \<Rightarrow>
             Inl (DOMException
                   (''Could not create Buffer from response body. Error: '' @ message error @ ''.'')
                   invalidStateError)))"

definition consumeBodyStream ::
  "'fd js_value \<Rightarrow> int \<Rightarrow> heap \<Rightarrow> ((exception + byte list) \<times> heap) option"
where
  "consumeBodyStream body sz h =
     (case body of
        Stream a \<Rightarrow>
          (case read_loop sz a h [] 0 of
             None \<Rightarrow> None
           | Some (r, h') \<Rightarrow>
               (case r of
                  Inl e \<Rightarrow> Some (Inl e, h')
                | Inr (chunks, bytes) \<Rightarrow>
                    if readableEnded (objects h' a) = Some False
                       \<or> readableState_ended (objects h' a) = Some False
                    then Some (Inl (DOMException ''Premature close of server response.''
                                      invalidStateError), h')
                    else Some (create_buffer chunks bytes, h')))
      | _ \<Rightarrow> Some (Inr (Buffer_alloc 0), h))"

subsection \<open>Notions of the statements\<close>

text \<open>
  \<open>next_items body n\<close> are the next \<open>n\<close> answers of the iterator of a stream,
  \<open>total_length\<close> is the sum of the lengths of chunks as the collector counts them,
  \<open>advance n\<close> is the stream after \<open>n\<close> more answers were taken from it.
\<close>

definition next_items :: "readable \<Rightarrow> nat \<Rightarrow> item list" where
  "next_items body n = map (source body) [position body ..< position body + n]"

definition total_length :: "chunk list \<Rightarrow> nat" where
  "total_length cs = sum_list (map chunk_length cs)"

definition advance :: "nat \<Rightarrow> readable \<Rightarrow> readable" where
  "advance n body = body\<lparr>position := position body + n\<rparr>"

definition taken :: "nat \<Rightarrow> addr \<Rightarrow> heap \<Rightarrow> heap" where
  \<comment> \<open>the heap after \<open>n\<close> answers were taken from the stream at \<open>a\<close>\<close>
  "taken n a h = h\<lparr>objects := (objects h)(a := advance n (objects h a))\<rparr>"

text \<open>
  What the collector makes of the chunks of a finite stream, said without the code:
  chunks that are all buffers are concatenated; when the first chunk is a string, the
  texts of the chunks (a buffer read as UTF-8) are joined and encoded as UTF-8; when
  the first chunk is a buffer and a later one is a string, the buffer cannot be built,
  and the error names the place of the first string.
\<close>

fun is_buffer :: "chunk \<Rightarrow> bool" where
  "is_buffer (BufferChunk b) = True"
| "is_buffer (StringChunk s) = False"

fun chunk_bytes :: "chunk \<Rightarrow> byte list" where
  "chunk_bytes (BufferChunk b) = b"
| "chunk_bytes (StringChunk s) = Buffer_from_string s"

fun chunk_text :: "chunk \<Rightarrow> jsstring" where
  "chunk_text (BufferChunk b) = Buffer_toString b"
| "chunk_text (StringChunk s) = s"

definition collected :: "chunk list \<Rightarrow> exception + byte list" where
  "collected cs =
     (if list_all is_buffer cs then Inr (concat (map chunk_bytes cs))
      else if is_buffer (hd cs) then
        Inl (DOMException
              (''Could not create Buffer from response body. Error: The \"list[''
                 @ digits (length (takeWhile is_buffer cs))
                 @ '']\" argument must be an instance of Buffer or Uint8Array..'')
              invalidStateError)
      else Inr (Buffer_from_string (concat (map chunk_text cs))))"





text \<open>
  Streams and heaps of the examples: a stream that answers with the items of a list
  (and stays pending after them), and a heap that holds one object.
\<close>

definition readable_of :: "item list \<Rightarrow> bool option \<Rightarrow> bool \<Rightarrow> readable" where
  "readable_of xs ended can_destroy =
     \<lparr>source = (\<lambda>i. if i < length xs then xs ! i else Pending),
      position = 0, readableEnded = ended, readableState_ended = ended,
      has_destroy = can_destroy, destroy_calls = [], pipes = []\<rparr>"

definition heap_of :: "readable \<Rightarrow> heap" where
  "heap_of obj = \<lparr>objects = (\<lambda>a. obj), fresh = 1\<rparr>"

definition abc_stream :: readable where
  "abc_stream =
     readable_of [Value (BufferChunk [0x41, 0x42]), Value (BufferChunk [0x43]), Done]
       (Some True) True"


definition cut_off :: readable where
  "cut_off = readable_of [Value (BufferChunk [0x41, 0x42]), Done] (Some False) True"

definition e_acute_text :: readable where
  \<comment> \<open>a stream with an encoding set, which delivers the string of the one code unit
      \<open>0xE9\<close> (e with an acute accent)\<close>
  "e_acute_text = readable_of [Value (StringChunk [0xE9]), Done] (Some True) True"

definition buffer_then_text :: readable where
  "buffer_then_text =
     readable_of [Value (BufferChunk [0x41]), Value (StringChunk [0x42]), Done] (Some True) True"

definition text_then_buffer :: readable where
  "text_then_buffer =
     readable_of [Value (StringChunk [0x61]), Value (BufferChunk [0xC3, 0xA9]), Done]
       (Some True) True"


definition piped_abc :: heap where
  \<comment> \<open>the heap after \<open>getBodyStream\<close> was given the stream at 0 of \<open>heap_of abc_stream\<close>\<close>
  "piped_abc = pipe 0 1 (snd (alloc (PassThrough 0) (heap_of abc_stream)))"


text \<open>
  An \<open>ArrayBufferView\<close> of the platform lies within its buffer; \<open>well_formed\<close> says so
  of a value. \<open>immutable_bytes\<close> gives the bytes of the payloads that are byte buffers:
  a blob, a \<^verbatim>\<open>Buffer\<close>, an \<^verbatim>\<open>ArrayBuffer\<close> and the window of a view.
  \<open>is_ascii\<close> holds of a string whose code units are all below 128.
  \<open>no_formData\<close> is a multipart collaborator for the examples, which have no form data.
\<close>

fun well_formed :: "'fd js_value \<Rightarrow> bool" where
  "well_formed (ArrayBufferView buffer byteOffset byteLength) =
     (byteOffset + byteLength \<le> length buffer)"
| "well_formed _ = True"

fun immutable_bytes :: "'fd js_value \<Rightarrow> byte list option" where
  "immutable_bytes (Blob b) = Some (blob_buffer b)"
| "immutable_bytes (Buffer b) = Some b"
| "immutable_bytes (ArrayBuffer b) = Some b"
| "immutable_bytes (ArrayBufferView buffer byteOffset byteLength) =
     (if byteOffset + byteLength \<le> length buffer
      then Some (take byteLength (drop byteOffset buffer)) else None)"
| "immutable_bytes _ = None"

fun coerced :: "'fd js_value \<Rightarrow> (exception + jsstring) option" where
  \<comment> \<open>what \<^verbatim>\<open>String(body)\<close> does with a value that is an instance of none of the classes\<close>
  "coerced (Primitive p) = Some (Inr (String_of p))"
| "coerced (Object r) = Some r"
| "coerced _ = None"

fun detached :: "'fd js_value \<Rightarrow> bool" where
  "detached DetachedArrayBuffer = True"
| "detached DetachedArrayBufferView = True"
| "detached _ = False"

definition is_ascii :: "jsstring \<Rightarrow> bool" where
  "is_ascii s = list_all (\<lambda>u. u < 0x80) s"

definition no_formData :: "unit \<Rightarrow> unit \<Rightarrow> heap \<Rightarrow> (exception + descriptor) \<times> heap" where
  "no_formData window fd h =
     (Inr \<lparr>stream = None, contentType = None, contentLength = None\<rparr>, h)"


subsection \<open>The reading loop\<close>

lemma next_items_Cons:
  "next_items body (Suc n) = source body (position body) # next_items (advance 1 body) n"
  unfolding next_items_def advance_def
  by (simp add: upt_rec[of "position body"] map_Suc_upt[symmetric] del: upt_Suc)

lemma advance_simps [simp]:
  "source (advance n body) = source body"
  "position (advance n body) = position body + n"
  "readableEnded (advance n body) = readableEnded body"
  "readableState_ended (advance n body) = readableState_ended body"
  "has_destroy (advance n body) = has_destroy body"
  by (simp_all add: advance_def)

lemma advance_advance: "advance m (advance n body) = advance (n + m) body"
  by (simp add: advance_def add.assoc)

lemma advance_0 [simp]: "advance 0 body = body"
  by (simp add: advance_def)

lemma taken_simps [simp]:
  "objects (taken n a h) a = advance n (objects h a)"
  "b \<noteq> a \<Longrightarrow> objects (taken n a h) b = objects h b"
  "fresh (taken n a h) = fresh h"
  by (simp_all add: taken_def)

lemma taken_0 [simp]: "taken 0 a h = h"
  by (simp add: taken_def)

lemma taken_taken: "taken m a (taken n a h) = taken (n + m) a h"
  by (simp add: taken_def advance_advance)

lemma next_item_Value:
  "source (objects h a) (position (objects h a)) = Value c \<Longrightarrow>
   next_item a h = Some (Value c, taken 1 a h)"
  by (subst next_item.simps) (simp add: taken_def advance_def)

lemma next_item_Done:
  "source (objects h a) (position (objects h a)) = Done \<Longrightarrow> next_item a h = Some (Done, h)"
  by (subst next_item.simps) simp

lemma next_item_Rejected:
  "source (objects h a) (position (objects h a)) = Rejected e \<Longrightarrow>
   next_item a h = Some (Rejected e, h)"
  by (subst next_item.simps) simp

lemma next_item_Pending:
  "source (objects h a) (position (objects h a)) = Pending \<Longrightarrow>
   next_item a h = Some (Pending, h)"
  by (subst next_item.simps) simp

lemma next_item_Piped:
  "source (objects h a) (position (objects h a)) = Piped src \<Longrightarrow>
   next_item a h = Option.bind (next_item src h) (\<lambda>(x, h'). Some (written x, h'))"
  by (subst next_item.simps) simp

text \<open>
  As long as the limit is not passed, the loop takes the chunks the stream delivers, in
  their order, and adds their lengths.
\<close>

lemma read_loop_accepts:
  assumes "next_items (objects h a) (length cs) = map Value cs"
    and "sz = 0 \<or> int bytes + int (total_length cs) \<le> sz"
  shows "read_loop sz a h acc bytes =
         read_loop sz a (taken (length cs) a h) (acc @ cs) (bytes + total_length cs)"
  using assms
proof (induction cs arbitrary: h acc bytes)
  case Nil
  then show ?case by (simp add: total_length_def)
next
  case (Cons c cs)
  from Cons.prems(1) have here: "source (objects h a) (position (objects h a)) = Value c"
    and rest: "next_items (objects (taken 1 a h) a) (length cs) = map Value cs"
    by (simp_all add: next_items_Cons)
  from Cons.prems(2) have ok: "\<not> (sz \<noteq> 0 \<and> int bytes + int (chunk_length c) > sz)"
    and ok': "sz = 0 \<or> int (bytes + chunk_length c) + int (total_length cs) \<le> sz"
    by (auto simp: total_length_def)
  have "read_loop sz a h acc bytes =
        read_loop sz a (taken 1 a h) (acc @ [c]) (bytes + chunk_length c)"
    using ok by (subst read_loop.simps) (auto simp: next_item_Value[OF here])
  also have "\<dots> = read_loop sz a (taken (length cs) a (taken 1 a h)) ((acc @ [c]) @ cs)
                     ((bytes + chunk_length c) + total_length cs)"
    by (rule Cons.IH[OF rest ok'])
  finally show ?case by (simp add: taken_taken total_length_def add.assoc add.commute)
qed

lemma read_loop_Done:
  "source (objects h a) (position (objects h a)) = Done \<Longrightarrow>
   read_loop sz a h acc bytes = Some (Inr (acc, bytes), h)"
  by (subst read_loop.simps) (simp add: next_item_Done)


lemma read_loop_finite:
  assumes "next_items (objects h a) (length cs) = map Value cs"
    and "source (objects h a) (position (objects h a) + length cs) = Done"
    and "sz = 0 \<or> int (total_length cs) \<le> sz"
  shows "read_loop sz a h [] 0 = Some (Inr (cs, total_length cs), taken (length cs) a h)"
proof -
  have "read_loop sz a h [] 0 =
        read_loop sz a (taken (length cs) a h) ([] @ cs) (0 + total_length cs)"
    using assms(1,3) by (intro read_loop_accepts) simp_all
  also have "\<dots> = Some (Inr (cs, total_length cs), taken (length cs) a h)"
    using assms(2) by (simp add: read_loop_Done)
  finally show ?thesis .
qed

lemma next_items_readable_of:
  "n \<le> length xs \<Longrightarrow> next_items (readable_of xs e d) n = take n xs"
  by (auto simp: next_items_def readable_of_def intro!: nth_equalityI)

lemma readable_of_simps:
  "source (readable_of xs e d) i = (if i < length xs then xs ! i else Pending)"
  "position (readable_of xs e d) = 0"
  "readableEnded (readable_of xs e d) = e"
  "readableState_ended (readable_of xs e d) = e"
  "has_destroy (readable_of xs e d) = d"
  "destroy_calls (readable_of xs e d) = []"
  by (simp_all add: readable_of_def)

lemma heap_of_simps: "objects (heap_of obj) a = obj" "fresh (heap_of obj) = 1"
  by (simp_all add: heap_of_def)

subsection \<open>Building the buffer\<close>

lemma concat_from_buffers: "concat_from i (map BufferChunk bs) = Inr (concat bs)"
  by (induction bs arbitrary: i) simp_all

lemma total_length_buffers: "total_length (map BufferChunk bs) = length (concat bs)"
  by (induction bs) (simp_all add: total_length_def)

lemma first_is_string_buffers: "\<not> first_is_string (map BufferChunk bs)"
  by (cases bs) (simp_all add: first_is_string_def)

lemma create_buffer_buffers:
  "create_buffer (map BufferChunk bs) (total_length (map BufferChunk bs)) = Inr (concat bs)"
  by (simp add: create_buffer_def first_is_string_buffers Buffer_concat_def concat_from_buffers
      total_length_buffers)

lemma Array_join_texts: "Array_join cs = concat (map chunk_text cs)"
  by (induction cs rule: Array_join.induct) simp_all

lemma concat_from_string:
  "\<not> list_all is_buffer cs \<Longrightarrow>
   concat_from i cs =
     Inl (TypeError (''The \"list['' @ digits (i + length (takeWhile is_buffer cs))
        @ '']\" argument must be an instance of Buffer or Uint8Array.''))"
proof (induction cs arbitrary: i)
  case Nil
  then show ?case by simp
next
  case (Cons c cs)
  show ?case
  proof (cases c)
    case (BufferChunk b)
    with Cons.prems have "\<not> list_all is_buffer cs" by simp
    from Cons.IH[OF this, of "i + 1"] BufferChunk show ?thesis by simp
  next
    case (StringChunk s)
    then show ?thesis by simp
  qed
qed

lemma buffers_map: "list_all is_buffer cs \<Longrightarrow> cs = map BufferChunk (map chunk_bytes cs)"
proof (induction cs)
  case Nil
  show ?case by simp
next
  case (Cons c cs)
  then show ?case by (cases c) simp_all
qed

lemma total_length_map_buffers:
  "list_all is_buffer cs \<Longrightarrow> total_length cs = length (concat (map chunk_bytes cs))"
  using total_length_buffers[of "map chunk_bytes cs"] buffers_map[of cs] by simp

lemma create_buffer_collected: "create_buffer cs (total_length cs) = collected cs"
proof (cases "list_all is_buffer cs")
  case True
  from create_buffer_buffers[of "map chunk_bytes cs"] buffers_map[OF True]
  show ?thesis using True by (simp add: collected_def)
next
  case False
  then obtain c cs' where cs: "cs = c # cs'" by (cases cs) auto
  show ?thesis
  proof (cases c)
    case (BufferChunk b)
    with cs have "\<not> first_is_string cs" "is_buffer (hd cs)" "cs \<noteq> []"
      by (simp_all add: first_is_string_def)
    then show ?thesis
      using False concat_from_string[OF False, of 0]
      by (simp add: create_buffer_def Buffer_concat_def collected_def)
  next
    case (StringChunk s)
    with cs have "first_is_string cs" "\<not> is_buffer (hd cs)"
      by (simp_all add: first_is_string_def)
    then show ?thesis
      using False by (simp add: create_buffer_def collected_def Array_join_texts)
  qed
qed

subsection \<open>Decimal numerals\<close>








subsection \<open>UTF-8\<close>


























lemma Buffer_from_string_e_acute: "Buffer_from_string [0xE9] = [0xC3, 0xA9]"
  by (simp add: Buffer_from_string_def scalar_of_unit_def is_high_surrogate_def
      is_low_surrogate_def utf8_encode_def)



lemma Buffer_toString_sample:
  "Buffer_toString [0x61, 0xC3, 0xA9, 0xE2, 0x82, 0xAC, 0xF0, 0x9F, 0x98, 0x80] =
     [0x61, 0xE9, 0x20AC, 0xD83D, 0xDE00]"
  by (simp add: Buffer_toString_def is_continuation_def second_byte_ok_def utf16_encode_def)

lemma Buffer_toString_ill_formed:
  "Buffer_toString [0xC3, 0x41, 0xE2, 0x82, 0xFF, 0xED, 0xA0, 0x80] =
     [0xFFFD, 0x41, 0xFFFD, 0xFFFD, 0xFFFD, 0xFFFD, 0xFFFD]"
  by (simp add: Buffer_toString_def is_continuation_def second_byte_ok_def utf16_encode_def)

subsection \<open>Collecting a finite stream\<close>

text \<open>
  What \<open>consumeBodyStream\<close> returns for a stream that delivers finitely many chunks and
  is then done, and for a stream whose next chunk passes the limit.
\<close>

lemma consume_finite:
  assumes "next_items (objects h a) (length cs) = map Value cs"
    and "source (objects h a) (position (objects h a) + length cs) = Done"
    and "sz = 0 \<or> int (total_length cs) \<le> sz"
  shows "consumeBodyStream (Stream a :: 'fd js_value) sz h =
           (if readableEnded (objects h a) = Some False
               \<or> readableState_ended (objects h a) = Some False
            then Some (Inl (DOMException ''Premature close of server response.''
                              invalidStateError), taken (length cs) a h)
            else Some (collected cs, taken (length cs) a h))"
proof -
  have "read_loop sz a h [] 0 = Some (Inr (cs, total_length cs), taken (length cs) a h)"
    using assms by (rule read_loop_finite)
  then show ?thesis
    by (simp add: consumeBodyStream_def create_buffer_collected)
qed


text \<open>
  C2. A finite stream delivers finitely many chunks \<open>cs\<close> and is then done; neither of
  its two completion indicators denies the end. With no limit (\<open>size = 0\<close>)
  \<open>consumeBodyStream\<close> returns for such a stream, and what it returns depends on the
  kinds of the chunks as \<open>collected\<close> says: for chunks that are all buffers, the buffer
  that is their concatenation in the order of their arrival, whose length is the sum of
  the lengths of the chunks; when the first chunk is a string, the UTF-8 encoding of
  the joined texts of the chunks; when the first chunk is a buffer and a later one is
  a string, the exception that the buffer could not be created. The stream is left
  behind the last chunk.
\<close>

theorem consumeBodyStream_finite:
  assumes "next_items (objects h a) (length cs) = map Value cs"
    and "source (objects h a) (position (objects h a) + length cs) = Done"
    and "readableEnded (objects h a) \<noteq> Some False"
    and "readableState_ended (objects h a) \<noteq> Some False"
  shows "consumeBodyStream (Stream a :: 'fd js_value) 0 h =
           Some (collected cs,
                 h\<lparr>objects := (objects h)(a := advance (length cs) (objects h a))\<rparr>)
         \<and> (list_all is_buffer cs \<longrightarrow>
               collected cs = Inr (concat (map chunk_bytes cs))
             \<and> length (concat (map chunk_bytes cs)) = total_length cs)"
proof -
  have "read_loop 0 a h [] 0 = Some (Inr (cs, total_length cs), taken (length cs) a h)"
    using assms(1,2) by (intro read_loop_finite) simp_all
  then have "consumeBodyStream (Stream a :: 'fd js_value) 0 h =
           Some (collected cs, taken (length cs) a h)"
    using assms(3,4) by (simp add: consumeBodyStream_def create_buffer_collected)
  then show ?thesis
    by (simp add: taken_def collected_def total_length_map_buffers)
qed

theorem consumeBodyStream_finite_witness:
  "next_items (objects (heap_of text_then_buffer) 0)
       (length [StringChunk [0x61], BufferChunk [0xC3, 0xA9]])
     = map Value [StringChunk [0x61], BufferChunk [0xC3, 0xA9]]
   \<and> source (objects (heap_of text_then_buffer) 0)
        (position (objects (heap_of text_then_buffer) 0)
           + length [StringChunk [0x61], BufferChunk [0xC3, 0xA9]]) = Done
   \<and> readableEnded (objects (heap_of text_then_buffer) 0) \<noteq> Some False
   \<and> readableState_ended (objects (heap_of text_then_buffer) 0) \<noteq> Some False
   \<and> consumeBodyStream (Stream 0 :: unit js_value) 0 (heap_of text_then_buffer)
       = Some (Inr [0x61, 0xC3, 0xA9],
               (heap_of text_then_buffer)
                 \<lparr>objects := (objects (heap_of text_then_buffer))
                    (0 := advance 2 text_then_buffer)\<rparr>)
   \<and> next_items (objects (heap_of abc_stream) 0)
       (length [BufferChunk [0x41, 0x42], BufferChunk [0x43]])
     = map Value [BufferChunk [0x41, 0x42], BufferChunk [0x43]]
   \<and> consumeBodyStream (Stream 0 :: unit js_value) 0 (heap_of abc_stream)
       = Some (Inr [0x41, 0x42, 0x43],
               (heap_of abc_stream)
                 \<lparr>objects := (objects (heap_of abc_stream))(0 := advance 2 abc_stream)\<rparr>)
   \<and> length [0x41, 0x42, 0x43 :: byte]
       = total_length [BufferChunk [0x41, 0x42], BufferChunk [0x43]]"
proof -
  let ?h = "heap_of text_then_buffer" and ?cs = "[StringChunk [0x61], BufferChunk [0xC3, 0xA9]]"
  let ?k = "heap_of abc_stream" and ?bs = "[BufferChunk [0x41, 0x42], BufferChunk [0x43]]"
  have 1: "next_items (objects ?h 0) (length ?cs) = map Value ?cs"
    by (simp add: heap_of_simps text_then_buffer_def next_items_readable_of)
  have 2: "source (objects ?h 0) (position (objects ?h 0) + length ?cs) = Done"
    by (simp add: heap_of_simps text_then_buffer_def readable_of_simps)
  have 3: "readableEnded (objects ?h 0) \<noteq> Some False"
    and 4: "readableState_ended (objects ?h 0) \<noteq> Some False"
    by (simp_all add: heap_of_simps text_then_buffer_def readable_of_simps)
  have 5: "next_items (objects ?k 0) (length ?bs) = map Value ?bs"
    by (simp add: heap_of_simps abc_stream_def next_items_readable_of)
  have 6: "source (objects ?k 0) (position (objects ?k 0) + length ?bs) = Done"
    by (simp add: heap_of_simps abc_stream_def readable_of_simps)
  have 7: "readableEnded (objects ?k 0) \<noteq> Some False"
    and 8: "readableState_ended (objects ?k 0) \<noteq> Some False"
    by (simp_all add: heap_of_simps abc_stream_def readable_of_simps)
  have t: "Buffer_toString [0xC3, 0xA9] = [0xE9]"
    by (simp add: Buffer_toString_def is_continuation_def utf16_encode_def)
  have u: "Buffer_from_string [0x61, 0xE9] = [0x61, 0xC3, 0xA9]"
    by (simp add: Buffer_from_string_def scalar_of_unit_def is_high_surrogate_def
        is_low_surrogate_def utf8_encode_def)
  have c: "collected ?cs = Inr [0x61, 0xC3, 0xA9]"
    by (simp add: collected_def t u)
  have d: "collected ?bs = Inr [0x41, 0x42, 0x43]"
    by (simp add: collected_def)
  from consumeBodyStream_finite[OF 1 2 3 4, where ?'fd = unit]
    consumeBodyStream_finite[OF 5 6 7 8, where ?'fd = unit] 1 2 3 4 5
  show ?thesis
    by (simp add: c d heap_of_simps numeral_2_eq_2 total_length_def)
qed

text \<open>
  It does not hold of every finite stream that the buffer returned is as long as the
  chunks together: the stream of the one string chunk of the code unit \<open>0xE9\<close> is
  collected to two bytes. Nor does the call succeed for every finite stream: a buffer
  followed by a string cannot be made a buffer, and a stream whose completion indicator
  denies the end is a premature close.
\<close>

theorem consumeBodyStream_finite_counterexample:
  "consumeBodyStream (Stream 0 :: unit js_value) 0 (heap_of e_acute_text)
     = Some (Inr [0xC3, 0xA9], taken 1 0 (heap_of e_acute_text))
   \<and> length [0xC3, 0xA9 :: byte] \<noteq> total_length [StringChunk [0xE9]]
   \<and> consumeBodyStream (Stream 0 :: unit js_value) 0 (heap_of buffer_then_text)
     = Some (Inl (DOMException
                   (''Could not create Buffer from response body. Error: ''
                      @ ''The \"list[1]\" argument must be an instance of Buffer or Uint8Array..'')
                   invalidStateError),
             taken 2 0 (heap_of buffer_then_text))
   \<and> consumeBodyStream (Stream 0 :: unit js_value) 0 (heap_of cut_off)
     = Some (Inl (DOMException ''Premature close of server response.'' invalidStateError),
             taken 1 0 (heap_of cut_off))"
proof -
  have 1: "consumeBodyStream (Stream 0 :: unit js_value) 0 (heap_of e_acute_text)
     = Some (Inr [0xC3, 0xA9], taken 1 0 (heap_of e_acute_text))"
    using consume_finite[of "heap_of e_acute_text" 0 "[StringChunk [0xE9]]" 0, where ?'fd = unit]
    by (simp add: heap_of_simps e_acute_text_def next_items_readable_of readable_of_simps
        collected_def Buffer_from_string_e_acute)
  have 2: "length [0xC3, 0xA9 :: byte] \<noteq> total_length [StringChunk [0xE9]]"
    by (simp add: total_length_def)
  have 3: "consumeBodyStream (Stream 0 :: unit js_value) 0 (heap_of buffer_then_text)
     = Some (Inl (DOMException
                   (''Could not create Buffer from response body. Error: ''
                      @ ''The \"list[1]\" argument must be an instance of Buffer or Uint8Array..'')
                   invalidStateError),
             taken 2 0 (heap_of buffer_then_text))"
    using consume_finite[of "heap_of buffer_then_text" 0
        "[BufferChunk [0x41], StringChunk [0x42]]" 0, where ?'fd = unit]
    by (simp add: heap_of_simps buffer_then_text_def next_items_readable_of readable_of_simps
        collected_def numeral_2_eq_2)
  have 4: "consumeBodyStream (Stream 0 :: unit js_value) 0 (heap_of cut_off)
     = Some (Inl (DOMException ''Premature close of server response.'' invalidStateError),
             taken 1 0 (heap_of cut_off))"
    using consume_finite[of "heap_of cut_off" 0 "[BufferChunk [0x41, 0x42]]" 0, where ?'fd = unit]
    by (simp add: heap_of_simps cut_off_def next_items_readable_of readable_of_simps)
  from 1 2 3 4 show ?thesis by blast
qed

subsection \<open>The size limit\<close>




subsection \<open>Premature close\<close>

text \<open>
  C4. The iterator of the stream is done after the chunks \<open>cs\<close> (which the limit, if
  there is one, lets through), but one of the two completion indicators,
  \<^verbatim>\<open>readableEnded\<close> or \<^verbatim>\<open>_readableState.ended\<close>, is \<^verbatim>\<open>false\<close>. Then
  \<open>consumeBodyStream\<close> fails with the premature-close exception and returns no buffer.
\<close>

theorem consumeBodyStream_premature_close:
  assumes "next_items (objects h a) (length cs) = map Value cs"
    and "source (objects h a) (position (objects h a) + length cs) = Done"
    and "sz = 0 \<or> int (total_length cs) \<le> sz"
    and "readableEnded (objects h a) = Some False
         \<or> readableState_ended (objects h a) = Some False"
  shows "consumeBodyStream (Stream a :: 'fd js_value) sz h =
           Some (Inl (DOMException ''Premature close of server response.'' invalidStateError),
                 h\<lparr>objects := (objects h)(a := advance (length cs) (objects h a))\<rparr>)"
proof -
  have "read_loop sz a h [] 0 = Some (Inr (cs, total_length cs), taken (length cs) a h)"
    using assms(1,2,3) by (rule read_loop_finite)
  then show ?thesis
    using assms(4) by (auto simp: consumeBodyStream_def taken_def)
qed

theorem consumeBodyStream_premature_close_witness:
  "next_items (objects (heap_of cut_off) 0) (length [BufferChunk [0x41, 0x42]])
     = map Value [BufferChunk [0x41, 0x42]]
   \<and> source (objects (heap_of cut_off) 0)
        (position (objects (heap_of cut_off) 0) + length [BufferChunk [0x41, 0x42]]) = Done
   \<and> ((0::int) = 0 \<or> int (total_length [BufferChunk [0x41, 0x42]]) \<le> 0)
   \<and> (readableEnded (objects (heap_of cut_off) 0) = Some False
        \<or> readableState_ended (objects (heap_of cut_off) 0) = Some False)
   \<and> consumeBodyStream (Stream 0 :: unit js_value) 0 (heap_of cut_off)
       = Some (Inl (DOMException ''Premature close of server response.'' invalidStateError),
               (heap_of cut_off)\<lparr>objects := (objects (heap_of cut_off))(0 := advance 1 cut_off)\<rparr>)"
proof -
  let ?h = "heap_of cut_off"
  have 1: "next_items (objects ?h 0) (length [BufferChunk [0x41, 0x42]])
             = map Value [BufferChunk [0x41, 0x42]]"
    by (simp add: heap_of_def cut_off_def next_items_readable_of)
  have 2: "source (objects ?h 0) (position (objects ?h 0) + length [BufferChunk [0x41, 0x42]])
             = Done"
    by (simp add: heap_of_def cut_off_def readable_of_def)
  have 3: "(0::int) = 0 \<or> int (total_length [BufferChunk [0x41, 0x42]]) \<le> 0"
    by simp
  have 4: "readableEnded (objects ?h 0) = Some False
           \<or> readableState_ended (objects ?h 0) = Some False"
    by (simp add: heap_of_def cut_off_def readable_of_def)
  from consumeBodyStream_premature_close[OF 1 2 3 4, where ?'fd = unit] 1 2 3 4 show ?thesis
    by (simp add: heap_of_def)
qed

subsection \<open>The collector on arguments that are not streams\<close>

text \<open>
  C8. Called with an absent stream (\<^verbatim>\<open>null\<close>), \<open>consumeBodyStream\<close> returns the empty
  buffer for every size limit. The result comes from the first branch of the method:
  no stream is read and no object of the heap changes, so nothing is awaited.
\<close>

theorem consumeBodyStream_null:
  "consumeBodyStream (Null :: 'fd js_value) sz h = Some (Inr [], h)"
  by (simp add: consumeBodyStream_def Buffer_alloc_def)

text \<open>
  C10. Every argument that is not a stream instance, absent or not, gives the empty
  buffer without an error and leaves the heap as it was.
\<close>

text \<open>
  C10. Every argument that is not a stream instance, absent or not, gives the empty
  buffer without an error and leaves the heap as it was.
\<close>

theorem consumeBodyStream_not_a_stream:
  "(\<forall>a. body \<noteq> Stream a) \<Longrightarrow> consumeBodyStream body sz h = Some (Inr [], h)"
  by (cases body) (simp_all add: consumeBodyStream_def Buffer_alloc_def)

theorem consumeBodyStream_not_a_stream_witness:
  "(\<forall>a. Primitive (JSString (ascii ''text'')) \<noteq> (Stream a :: unit js_value))
   \<and> consumeBodyStream (Primitive (JSString (ascii ''text'')) :: unit js_value) 3
        (heap_of abc_stream) = Some (Inr [], heap_of abc_stream)"
  using consumeBodyStream_not_a_stream
    [of "Primitive (JSString (ascii ''text'')) :: unit js_value" 3 "heap_of abc_stream"]
  by simp

subsection \<open>Strings of ASCII\<close>

text \<open>
  The UTF-8 encoding of an ASCII string has one byte for each code unit, and the
  serialization of \<^verbatim>\<open>URLSearchParams\<close> is an ASCII string.
\<close>

lemma scalar_of_unit_ascii: "u < 0x80 \<Longrightarrow> scalar_of_unit u = unat u"
  by (auto simp: scalar_of_unit_def is_high_surrogate_def is_low_surrogate_def
      word_less_nat_alt word_le_nat_alt)

lemma not_high_ascii: "u < 0x80 \<Longrightarrow> \<not> is_high_surrogate u"
  by (auto simp: is_high_surrogate_def word_less_nat_alt word_le_nat_alt)

lemma code_points_ascii: "is_ascii s \<Longrightarrow> code_points s = map unat s"
  by (induction s rule: code_points.induct)
     (simp_all add: is_ascii_def scalar_of_unit_ascii not_high_ascii)

lemma utf8_encode_ascii: "u < 0x80 \<Longrightarrow> utf8_encode (unat u) = [ucast (u :: 16 word)]"
proof -
  assume u: "u < 0x80"
  then have "unat u < 0x80" by (simp add: word_less_nat_alt)
  moreover from u have "(of_nat (unat u) :: byte) = ucast u" by simp
  ultimately show ?thesis by (simp add: utf8_encode_def)
qed

lemma Buffer_from_string_ascii: "is_ascii s \<Longrightarrow> Buffer_from_string s = map ucast s"
  by (induction s) (simp_all add: Buffer_from_string_def code_points_ascii is_ascii_def utf8_encode_ascii)

lemma hex_digit_ascii: "n < 16 \<Longrightarrow> hex_digit n < 0x80"
  by (auto simp: hex_digit_def word_less_nat_alt unat_of_nat)

lemma unat_byte_less: "unat (b :: byte) < 256"
  using unsigned_less[of b, where ?'a = nat] by simp

lemma unat_ucast_byte: "unat (ucast (b :: byte) :: 16 word) = unat b"
proof -
  have "unat b < 2 ^ 16" using unat_byte_less[of b] by simp
  then show ?thesis by (simp add: unsigned_ucast_eq take_bit_nat_eq_self)
qed

lemma unreserved_ascii: "unreserved b \<Longrightarrow> (ucast b :: 16 word) < 0x80"
  unfolding unreserved_def by (auto simp: word_less_nat_alt word_le_nat_alt unat_ucast_byte)

lemma urlencode_byte_ascii: "is_ascii (urlencode_byte b)"
proof -
  have "unat b < 256" by (rule unat_byte_less)
  then have "unat b div 16 < 16" "unat b mod 16 < 16" by simp_all
  then show ?thesis
    by (simp add: urlencode_byte_def is_ascii_def hex_digit_ascii unreserved_ascii)
qed

lemma is_ascii_append [simp]: "is_ascii (s @ t) \<longleftrightarrow> is_ascii s \<and> is_ascii t"
  by (simp add: is_ascii_def)

lemma urlencode_bytes_ascii: "is_ascii (concat (map urlencode_byte bs))"
  by (induction bs) (simp_all add: urlencode_byte_ascii, simp add: is_ascii_def)

lemma urlencode_ascii: "is_ascii (urlencode s)"
  unfolding urlencode_def by (rule urlencode_bytes_ascii)

lemma URLSearchParams_toString_ascii: "is_ascii (URLSearchParams_toString ps)"
  by (induction ps rule: URLSearchParams_toString.induct)
     (simp_all add: urlencode_ascii is_ascii_def urlencode_ascii[unfolded is_ascii_def])

lemma length_Buffer_from_string_ascii:
  "is_ascii s \<Longrightarrow> length (Buffer_from_string s) = length s"
  by (simp add: Buffer_from_string_ascii)

subsection \<open>Streams made from bytes\<close>

text \<open>
  A stream that \<^verbatim>\<open>Readable.from\<close> made of a buffer is collected, without a limit, to
  that buffer.
\<close>

lemma alloc_simps:
  "fst (alloc obj h) = fresh h"
  "objects (snd (alloc obj h)) = (objects h)(fresh h := obj)"
  "fresh (snd (alloc obj h)) = fresh h + 1"
  by (simp_all add: alloc_def)

lemma consume_Readable_from:
  assumes "objects h a = Readable_from b"
  shows "consumeBodyStream (Stream a :: 'fd js_value) 0 h =
         Some (Inr b, h\<lparr>objects := (objects h)(a := advance 1 (Readable_from b))\<rparr>)"
proof -
  have 1: "next_items (objects h a) (length [BufferChunk b]) = map Value [BufferChunk b]"
    by (simp add: assms next_items_def Readable_from_def)
  have 2: "source (objects h a) (position (objects h a) + length [BufferChunk b]) = Done"
    by (simp add: assms Readable_from_def)
  have "read_loop 0 a h [] 0 =
        Some (Inr ([BufferChunk b], total_length [BufferChunk b]),
              taken (length [BufferChunk b]) a h)"
    using 1 2 by (rule read_loop_finite) simp
  moreover have "create_buffer [BufferChunk b] (total_length [BufferChunk b]) = Inr b"
    using create_buffer_buffers[of "[b]"] by simp
  ultimately show ?thesis
    by (simp add: consumeBodyStream_def assms Readable_from_def taken_def advance_def)
qed

lemma consume_created:
  "consumeBodyStream (Stream (fresh h) :: 'fd js_value) 0 (snd (alloc (Readable_from b) h)) =
   Some (Inr b, snd (alloc (advance 1 (Readable_from b)) h))"
proof -
  let ?h = "snd (alloc (Readable_from b) h)"
  have "objects ?h (fresh h) = Readable_from b" by (simp add: alloc_def)
  then have "consumeBodyStream (Stream (fresh h) :: 'fd js_value) 0 ?h =
     Some (Inr b, ?h\<lparr>objects := (objects ?h)(fresh h := advance 1 (Readable_from b))\<rparr>)"
    by (rule consume_Readable_from)
  then show ?thesis by (simp add: alloc_def)
qed

lemma getBodyStream_immutable:
  assumes "immutable_bytes body = Some b"
  shows "\<exists>d. getBodyStream formDataToStream window body h =
               (Inr d, snd (alloc (Readable_from b) h))
             \<and> stream d = Some (fresh h) \<and> contentLength d = Some (length b)"
  using assms
  by (cases body)
     (auto simp: getBodyStream_def alloc_def Blob_size_def Buffer_from_arrayBuffer_def
           split: if_splits)

lemma getBodyStream_Primitive:
  "getBodyStream formDataToStream window (Primitive p) h =
     (Inr \<lparr>stream = Some (fresh h), contentType = None,
            contentLength = Some (length (String_of p))\<rparr>,
      snd (alloc (Readable_from (Buffer_from_string (String_of p))) h))"
  by (simp add: getBodyStream_def fallback_def alloc_def Let_def)

lemma getBodyStream_URLSearchParams:
  "getBodyStream formDataToStream window (URLSearchParams params) h =
     (Inr \<lparr>stream = Some (fresh h), contentType = None,
            contentLength = Some (length (URLSearchParams_toString params))\<rparr>,
      snd (alloc (Readable_from (Buffer_from_string (URLSearchParams_toString params))) h))"
  by (simp add: getBodyStream_def alloc_def Let_def)

subsection \<open>A view of a buffer\<close>

text \<open>
  C7. For an \<^verbatim>\<open>ArrayBufferView\<close> with offset and length (its window lies within its
  buffer), \<open>getBodyStream\<close> returns a new stream that holds exactly the bytes of the
  window from \<open>byteOffset\<close> up to \<open>byteOffset + byteLength\<close>, so that collecting it
  gives these bytes and no other byte of the buffer, no content type, and the content
  length \<open>byteLength\<close>, which is the number of these bytes.
\<close>

theorem getBodyStream_view:
  assumes "byteOffset + byteLength \<le> length buffer"
  shows "getBodyStream formDataToStream window (ArrayBufferView buffer byteOffset byteLength) h =
           (Inr \<lparr>stream = Some (fresh h), contentType = None, contentLength = Some byteLength\<rparr>,
            snd (alloc (Readable_from (take byteLength (drop byteOffset buffer))) h))
         \<and> consumeBodyStream (Stream (fresh h) :: 'fd js_value) 0
             (snd (alloc (Readable_from (take byteLength (drop byteOffset buffer))) h)) =
           Some (Inr (take byteLength (drop byteOffset buffer)),
                 snd (alloc (advance 1 (Readable_from (take byteLength (drop byteOffset buffer)))) h))
         \<and> length (take byteLength (drop byteOffset buffer)) = byteLength"
proof -
  let ?w = "take byteLength (drop byteOffset buffer)"
  let ?h = "snd (alloc (Readable_from ?w) h)"
  have "Buffer_from_arrayBuffer buffer byteOffset byteLength = Inr ?w"
    using assms by (simp add: Buffer_from_arrayBuffer_def)
  then have "getBodyStream formDataToStream window (ArrayBufferView buffer byteOffset byteLength) h =
           (Inr \<lparr>stream = Some (fresh h), contentType = None, contentLength = Some byteLength\<rparr>, ?h)"
    by (simp add: getBodyStream_def alloc_def)
  moreover have "objects ?h (fresh h) = Readable_from ?w"
    by (simp add: alloc_simps)
  then have "consumeBodyStream (Stream (fresh h) :: 'fd js_value) 0 ?h =
     Some (Inr ?w, ?h\<lparr>objects := (objects ?h)(fresh h := advance 1 (Readable_from ?w))\<rparr>)"
    by (rule consume_Readable_from)
  then have "consumeBodyStream (Stream (fresh h) :: 'fd js_value) 0 ?h =
     Some (Inr ?w, snd (alloc (advance 1 (Readable_from ?w)) h))"
    by (simp add: alloc_def)
  moreover have "length ?w = byteLength" using assms by simp
  ultimately show ?thesis by blast
qed

theorem getBodyStream_view_witness:
  "(1::nat) + 2 \<le> length [0x40, 0x41, 0x42, 0x43 :: byte]
   \<and> getBodyStream no_formData () (ArrayBufferView [0x40, 0x41, 0x42, 0x43] 1 2)
        (heap_of abc_stream) =
       (Inr \<lparr>stream = Some 1, contentType = None, contentLength = Some 2\<rparr>,
        snd (alloc (Readable_from [0x41, 0x42]) (heap_of abc_stream)))
   \<and> consumeBodyStream (Stream 1 :: unit js_value) 0
        (snd (alloc (Readable_from [0x41, 0x42]) (heap_of abc_stream))) =
       Some (Inr [0x41, 0x42],
             snd (alloc (advance 1 (Readable_from [0x41, 0x42])) (heap_of abc_stream)))"
proof -
  have 1: "(1::nat) + 2 \<le> length [0x40, 0x41, 0x42, 0x43 :: byte]" by simp
  have f: "fresh (heap_of abc_stream) = 1" by (simp add: heap_of_def)
  from getBodyStream_view[OF 1, of no_formData "()" "heap_of abc_stream", where ?'fd = unit]
  show ?thesis
    by (simp add: f)
qed

subsection \<open>Two streams of the same bytes\<close>

text \<open>
  C9. For a payload that is a byte buffer (no live stream), two calls of \<open>getBodyStream\<close>
  on the same payload return two different streams. Each of them can be collected
  whichever is collected first: collecting one leaves the other one as it was, and both
  give the same bytes, those of the payload.
\<close>

theorem getBodyStream_twice:
  assumes "immutable_bytes body = Some b"
  shows "\<exists>d1 h1 a1 d2 h2 a2.
           getBodyStream formDataToStream window body h = (Inr d1, h1) \<and> stream d1 = Some a1
         \<and> getBodyStream formDataToStream window body h1 = (Inr d2, h2) \<and> stream d2 = Some a2
         \<and> a1 \<noteq> a2
         \<and> (\<exists>h3 h4. consumeBodyStream (Stream a1 :: 'fd js_value) 0 h2 = Some (Inr b, h3)
               \<and> objects h3 a2 = objects h2 a2
               \<and> consumeBodyStream (Stream a2 :: 'fd js_value) 0 h3 = Some (Inr b, h4))
         \<and> (\<exists>h3 h4. consumeBodyStream (Stream a2 :: 'fd js_value) 0 h2 = Some (Inr b, h3)
               \<and> objects h3 a1 = objects h2 a1
               \<and> consumeBodyStream (Stream a1 :: 'fd js_value) 0 h3 = Some (Inr b, h4))"
proof -
  let ?h1 = "snd (alloc (Readable_from b) h)"
  let ?h2 = "snd (alloc (Readable_from b) ?h1)"
  let ?a1 = "fresh h" and ?a2 = "fresh h + 1"
  from getBodyStream_immutable[OF assms, of formDataToStream window h] obtain d1 where
    d1: "getBodyStream formDataToStream window body h = (Inr d1, ?h1)" "stream d1 = Some ?a1"
    by blast
  from getBodyStream_immutable[OF assms, of formDataToStream window ?h1] obtain d2 where
    d2: "getBodyStream formDataToStream window body ?h1 = (Inr d2, ?h2)"
      "stream d2 = Some (fresh ?h1)"
    by blast
  have a2: "fresh ?h1 = ?a2" by (simp add: alloc_def)
  have o1: "objects ?h2 ?a1 = Readable_from b" and o2: "objects ?h2 ?a2 = Readable_from b"
    by (simp_all add: alloc_def)
  let ?h3 = "?h2\<lparr>objects := (objects ?h2)(?a1 := advance 1 (Readable_from b))\<rparr>"
  let ?h3' = "?h2\<lparr>objects := (objects ?h2)(?a2 := advance 1 (Readable_from b))\<rparr>"
  have r1: "consumeBodyStream (Stream ?a1 :: 'fd js_value) 0 ?h2 = Some (Inr b, ?h3)"
    by (rule consume_Readable_from[OF o1])
  have k2: "objects ?h3 ?a2 = objects ?h2 ?a2" by simp
  have r2: "consumeBodyStream (Stream ?a2 :: 'fd js_value) 0 ?h3 =
            Some (Inr b, ?h3\<lparr>objects := (objects ?h3)(?a2 := advance 1 (Readable_from b))\<rparr>)"
    by (rule consume_Readable_from) (simp add: alloc_def)
  have r1': "consumeBodyStream (Stream ?a2 :: 'fd js_value) 0 ?h2 = Some (Inr b, ?h3')"
    by (rule consume_Readable_from[OF o2])
  have k1: "objects ?h3' ?a1 = objects ?h2 ?a1" by simp
  have r2': "consumeBodyStream (Stream ?a1 :: 'fd js_value) 0 ?h3' =
            Some (Inr b, ?h3'\<lparr>objects := (objects ?h3')(?a1 := advance 1 (Readable_from b))\<rparr>)"
    by (rule consume_Readable_from) (simp add: alloc_def)
  have ne: "?a1 \<noteq> ?a2" by simp
  from d1 d2 a2 ne r1 k2 r2 r1' k1 r2' show ?thesis
    by (intro exI[of _ d1] exI[of _ ?h1] exI[of _ ?a1] exI[of _ d2] exI[of _ ?h2] exI[of _ ?a2])
       (intro conjI; (assumption | simp | blast))
qed

theorem getBodyStream_twice_witness:
  "immutable_bytes (Buffer [0x41, 0x42, 0x43] :: unit js_value) = Some [0x41, 0x42, 0x43]
   \<and> (\<exists>d1 h1 a1 d2 h2 a2.
           getBodyStream no_formData () (Buffer [0x41, 0x42, 0x43]) (heap_of abc_stream) = (Inr d1, h1)
         \<and> stream d1 = Some a1
         \<and> getBodyStream no_formData () (Buffer [0x41, 0x42, 0x43]) h1 = (Inr d2, h2)
         \<and> stream d2 = Some a2
         \<and> a1 \<noteq> a2
         \<and> (\<exists>h3 h4. consumeBodyStream (Stream a1 :: unit js_value) 0 h2 = Some (Inr [0x41, 0x42, 0x43], h3)
               \<and> objects h3 a2 = objects h2 a2
               \<and> consumeBodyStream (Stream a2 :: unit js_value) 0 h3 = Some (Inr [0x41, 0x42, 0x43], h4))
         \<and> (\<exists>h3 h4. consumeBodyStream (Stream a2 :: unit js_value) 0 h2 = Some (Inr [0x41, 0x42, 0x43], h3)
               \<and> objects h3 a1 = objects h2 a1
               \<and> consumeBodyStream (Stream a1 :: unit js_value) 0 h3 = Some (Inr [0x41, 0x42, 0x43], h4)))"
proof -
  have 1: "immutable_bytes (Buffer [0x41, 0x42, 0x43] :: unit js_value) = Some [0x41, 0x42, 0x43]"
    by simp
  from getBodyStream_twice[OF 1, of no_formData "()" "heap_of abc_stream"] 1 show ?thesis
    by blast
qed

subsection \<open>A stream as payload\<close>

text \<open>
  The stream that \<open>getBodyStream\<close> returns for a stream answers with what its source
  delivers, written as bytes.
\<close>

lemma written_Value: "written (Value c) = Value (BufferChunk (chunk_bytes c))"
  by (cases c) (simp_all add: written_def)

lemma next_item_piped_Value:
  assumes "source (objects h a) (position (objects h a)) = Piped src"
    and "source (objects h src) (position (objects h src)) = Value c"
  shows "next_item a h = Some (Value (BufferChunk (chunk_bytes c)), taken 1 src h)"
  by (simp add: next_item_Piped[OF assms(1)] next_item_Value[OF assms(2)] written_Value)

lemma next_item_piped_Done:
  assumes "source (objects h a) (position (objects h a)) = Piped src"
    and "source (objects h src) (position (objects h src)) = Done"
  shows "next_item a h = Some (Done, h)"
  by (simp add: next_item_Piped[OF assms(1)] next_item_Done[OF assms(2)] written_def)

lemma read_loop_piped:
  assumes "\<forall>i. source (objects h a) i = Piped src"
    and "a \<noteq> src"
    and "next_items (objects h src) (length cs) = map Value cs"
  shows "read_loop 0 a h acc bytes =
         read_loop 0 a (taken (length cs) src h) (acc @ map (\<lambda>c. BufferChunk (chunk_bytes c)) cs)
           (bytes + total_length (map (\<lambda>c. BufferChunk (chunk_bytes c)) cs))"
  using assms
proof (induction cs arbitrary: h acc bytes)
  case Nil
  then show ?case by (simp add: total_length_def)
next
  case (Cons c cs)
  let ?h = "taken 1 src h"
  from Cons.prems(3) have here: "source (objects h src) (position (objects h src)) = Value c"
    and rest: "next_items (objects ?h src) (length cs) = map Value cs"
    by (simp_all add: next_items_Cons)
  from Cons.prems(1) have p: "source (objects h a) (position (objects h a)) = Piped src"
    by simp
  from Cons.prems(1,2) have p': "\<forall>i. source (objects ?h a) i = Piped src"
    by simp
  have "read_loop 0 a h acc bytes =
        read_loop 0 a ?h (acc @ [BufferChunk (chunk_bytes c)]) (bytes + length (chunk_bytes c))"
    by (subst read_loop.simps) (simp add: next_item_piped_Value[OF p here])
  also have "\<dots> = read_loop 0 a (taken (length cs) src ?h)
       ((acc @ [BufferChunk (chunk_bytes c)]) @ map (\<lambda>c. BufferChunk (chunk_bytes c)) cs)
       ((bytes + length (chunk_bytes c)) + total_length (map (\<lambda>c. BufferChunk (chunk_bytes c)) cs))"
    by (rule Cons.IH[OF p' Cons.prems(2) rest])
  finally show ?case by (simp add: taken_taken total_length_def add.assoc add.commute)
qed

text \<open>
  Collecting the stream that a finite source is piped into gives the bytes of the
  source, and takes them from the source.
\<close>

lemma consume_piped:
  assumes "\<forall>i. source (objects h a) i = Piped src"
    and "a \<noteq> src"
    and "next_items (objects h src) (length cs) = map Value cs"
    and "source (objects h src) (position (objects h src) + length cs) = Done"
    and "readableEnded (objects h a) \<noteq> Some False"
    and "readableState_ended (objects h a) \<noteq> Some False"
  shows "consumeBodyStream (Stream a :: 'fd js_value) 0 h =
           Some (Inr (concat (map chunk_bytes cs)), taken (length cs) src h)"
proof -
  let ?h = "taken (length cs) src h"
  let ?bs = "map (\<lambda>c. BufferChunk (chunk_bytes c)) cs"
  from assms(1,2) have p: "source (objects ?h a) (position (objects ?h a)) = Piped src"
    by simp
  from assms(4) have d: "source (objects ?h src) (position (objects ?h src)) = Done"
    by simp
  have "read_loop 0 a h [] 0 = read_loop 0 a ?h ([] @ ?bs) (0 + total_length ?bs)"
    by (rule read_loop_piped[OF assms(1,2,3)])
  also have "\<dots> = Some (Inr (?bs, total_length ?bs), ?h)"
    by (subst read_loop.simps) (simp add: next_item_piped_Done[OF p d])
  finally have "read_loop 0 a h [] 0 = Some (Inr (?bs, total_length ?bs), ?h)" .
  moreover have "create_buffer ?bs (total_length ?bs) = Inr (concat (map chunk_bytes cs))"
    using create_buffer_buffers[of "map chunk_bytes cs"] by (simp add: comp_def)
  ultimately show ?thesis
    using assms(2,5,6) by (simp add: consumeBodyStream_def)
qed

lemma getBodyStream_Stream:
  "getBodyStream formDataToStream window (Stream src) h =
     (Inr \<lparr>stream = Some (fresh h), contentType = None, contentLength = None\<rparr>,
      pipe src (fresh h) (snd (alloc (PassThrough src) h)))"
  by (simp add: getBodyStream_def alloc_def)

lemma piped_abc_objects:
  "objects piped_abc 0 = abc_stream\<lparr>pipes := [1]\<rparr>"
  "objects piped_abc (Suc 0) = PassThrough 0"
  by (simp_all add: piped_abc_def pipe_def alloc_def heap_of_def abc_stream_def readable_of_def)

text \<open>
  C5. For a stream as payload, \<open>getBodyStream\<close> should return a duplicate and leave the
  original to its owner, not consumed and still readable; the method says so itself
  (\<^verbatim>\<open>// Clones the body\<close>). It returns a new \<^verbatim>\<open>PassThrough\<close> with no content type and
  no content length, and when it returns, nothing has been taken from the original:
  the owner, reading first, would get its three bytes. But the original is piped into
  the returned stream, not duplicated: once the three bytes have been collected from
  the returned stream, the owner of the original collects nothing from it.
\<close>

theorem getBodyStream_stream_drained:
  "getBodyStream no_formData () (Stream 0) (heap_of abc_stream) =
     (Inr \<lparr>stream = Some 1, contentType = None, contentLength = None\<rparr>, piped_abc)
   \<and> position (objects piped_abc 0) = position (objects (heap_of abc_stream) 0)
   \<and> consumeBodyStream (Stream 0 :: unit js_value) 0 piped_abc
       = Some (Inr [0x41, 0x42, 0x43], taken 2 0 piped_abc)
   \<and> consumeBodyStream (Stream 1 :: unit js_value) 0 piped_abc
       = Some (Inr [0x41, 0x42, 0x43], taken 2 0 piped_abc)
   \<and> consumeBodyStream (Stream 0 :: unit js_value) 0 (taken 2 0 piped_abc)
       = Some (Inr [], taken 2 0 piped_abc)"
proof -
  let ?cs = "[BufferChunk [0x41, 0x42], BufferChunk [0x43]]"
  have g: "getBodyStream no_formData () (Stream 0) (heap_of abc_stream) =
     (Inr \<lparr>stream = Some 1, contentType = None, contentLength = None\<rparr>, piped_abc)"
    by (simp add: getBodyStream_Stream piped_abc_def heap_of_def)
  have p: "position (objects piped_abc 0) = position (objects (heap_of abc_stream) 0)"
    by (simp add: piped_abc_objects heap_of_def)
  have items: "next_items (objects piped_abc 0) (length ?cs) = map Value ?cs"
    by (simp add: piped_abc_objects abc_stream_def readable_of_def next_items_def upt_rec)
  have fin: "source (objects piped_abc 0) (position (objects piped_abc 0) + length ?cs) = Done"
    by (simp add: piped_abc_objects abc_stream_def readable_of_def)
  have own: "consumeBodyStream (Stream 0 :: unit js_value) 0 piped_abc
       = Some (Inr [0x41, 0x42, 0x43], taken 2 0 piped_abc)"
    using consume_finite[OF items fin, of 0, where ?'fd = unit]
    by (simp add: piped_abc_objects abc_stream_def readable_of_def collected_def numeral_2_eq_2)
  have copy: "consumeBodyStream (Stream 1 :: unit js_value) 0 piped_abc
       = Some (Inr [0x41, 0x42, 0x43], taken 2 0 piped_abc)"
  proof -
    have 1: "\<forall>i. source (objects piped_abc 1) i = Piped 0"
      and 2: "readableEnded (objects piped_abc 1) \<noteq> Some False"
      and 3: "readableState_ended (objects piped_abc 1) \<noteq> Some False"
      by (simp_all add: piped_abc_objects PassThrough_def)
    have 4: "(1::nat) \<noteq> 0" by simp
    from consume_piped[OF 1 4 items fin 2 3, where ?'fd = unit] show ?thesis
      by (simp add: numeral_2_eq_2)
  qed
  have items': "next_items (objects (taken 2 0 piped_abc) 0) (length ([] :: chunk list)) = map Value []"
    by (simp add: next_items_def)
  have fin': "source (objects (taken 2 0 piped_abc) 0)
                (position (objects (taken 2 0 piped_abc) 0) + length ([] :: chunk list)) = Done"
    by (simp add: piped_abc_objects abc_stream_def readable_of_def)
  have after: "consumeBodyStream (Stream 0 :: unit js_value) 0 (taken 2 0 piped_abc)
       = Some (Inr [], taken 2 0 piped_abc)"
    using consume_finite[OF items' fin', of 0, where ?'fd = unit]
    by (simp add: piped_abc_objects abc_stream_def readable_of_def collected_def)
  from g p own copy after show ?thesis by blast
qed

subsection \<open>Exceptions, and the textual fallback\<close>

lemma getBodyStream_coerced:
  "coerced body = Some r \<Longrightarrow> getBodyStream formDataToStream window body h = fallback r h"
  by (cases body) (simp_all add: getBodyStream_def)

lemma fallback_Inr:
  "fallback (Inr s) h =
     (Inr \<lparr>stream = Some (fresh h), contentType = None, contentLength = Some (length s)\<rparr>,
      snd (alloc (Readable_from (Buffer_from_string s)) h))"
  by (simp add: fallback_def alloc_def)

lemma fallback_Inl: "fallback (Inl e) h = (Inl e, h)"
  by (simp add: fallback_def)





subsection \<open>The content length and the bytes of the stream\<close>

text \<open>
  The serialization of \<^verbatim>\<open>URLSearchParams\<close> is ASCII, so its length is the number of
  its bytes. For every payload but a value whose string is not ASCII (form data is left
  to the collaborator), a content length that is not \<^verbatim>\<open>null\<close> is the number of bytes
  collected from the stream.
\<close>

lemma contentLength_exact_elsewhere:
  assumes "well_formed body"
    and "\<forall>fd. body \<noteq> FormData fd"
    and "\<forall>s. coerced body = Some (Inr s) \<longrightarrow> is_ascii s"
    and "getBodyStream formDataToStream window body h = (Inr d, h')"
    and "contentLength d = Some n"
  shows "\<exists>a b h''. stream d = Some a
           \<and> consumeBodyStream (Stream a :: 'fd js_value) 0 h' = Some (Inr b, h'') \<and> length b = n"
proof (cases "immutable_bytes body")
  case (Some b)
  from getBodyStream_immutable[OF Some, of formDataToStream window h] assms(4,5)
  have "stream d = Some (fresh h)" "h' = snd (alloc (Readable_from b) h)" "length b = n"
    by auto
  then show ?thesis using consume_created[of h b, where ?'fd = 'fd] by blast
next
  case None
  show ?thesis
  proof (cases "coerced body")
    case (Some r)
    show ?thesis
    proof (cases r)
      case (Inl e)
      with Some assms(4) show ?thesis by (simp add: getBodyStream_coerced fallback_Inl)
    next
      case (Inr s)
      with Some assms(4,5)
      have "stream d = Some (fresh h)" "h' = snd (alloc (Readable_from (Buffer_from_string s)) h)"
        "length s = n"
        by (auto simp: getBodyStream_coerced fallback_Inr)
      moreover have "length (Buffer_from_string s) = length s"
        using assms(3) Some Inr by (simp add: length_Buffer_from_string_ascii)
      ultimately show ?thesis
        using consume_created[of h "Buffer_from_string s", where ?'fd = 'fd] by auto
    qed
  next
    case no: None
    show ?thesis
    proof (cases body)
      case (URLSearchParams params)
      let ?s = "URLSearchParams_toString params"
      from assms(4,5) URLSearchParams
      have "stream d = Some (fresh h)"
        "h' = snd (alloc (Readable_from (Buffer_from_string ?s)) h)" "length ?s = n"
        by (auto simp: getBodyStream_URLSearchParams)
      moreover have "length (Buffer_from_string ?s) = length ?s"
        by (simp add: length_Buffer_from_string_ascii URLSearchParams_toString_ascii)
      ultimately show ?thesis
        using consume_created[of h "Buffer_from_string ?s", where ?'fd = 'fd] by auto
    next
      case (Stream src)
      with assms(4,5) show ?thesis
        by (auto simp: getBodyStream_def split: prod.splits)
    qed (use None no assms in \<open>auto simp: getBodyStream_def split: if_splits\<close>)
  qed
qed

lemma key_value: "URLSearchParams_toString [(ascii ''key'', ascii ''value'')] = ascii ''key=value''"
  by (simp add: urlencode_def Buffer_from_string_ascii is_ascii_def ascii_def urlencode_byte_def
      unreserved_def)

text \<open>
  The scenario of the form \<^verbatim>\<open>key=value\<close>: nine characters, nine bytes.
\<close>

lemma getBodyStream_key_value:
  "getBodyStream no_formData () (URLSearchParams [(ascii ''key'', ascii ''value'')]) h =
     (Inr \<lparr>stream = Some (fresh h), contentType = None, contentLength = Some 9\<rparr>,
      snd (alloc (Readable_from [0x6B, 0x65, 0x79, 0x3D, 0x76, 0x61, 0x6C, 0x75, 0x65]) h))"
  unfolding getBodyStream_URLSearchParams key_value
  by (simp add: Buffer_from_string_ascii is_ascii_def ascii_def)

text \<open>
  C1. The content length, when it is not \<^verbatim>\<open>null\<close>, should be the number of bytes read
  from the stream. For the string of the one code unit \<open>0xE9\<close> (e with an acute accent) it is not:
  \<open>getBodyStream\<close> returns the content length 1, the length of the string, and a
  stream from which the 2 bytes \<open>0xC3 0xA9\<close> are collected.
\<close>

theorem getBodyStream_string_contentLength:
  "getBodyStream no_formData () (Primitive (JSString [0xE9])) (heap_of abc_stream) =
     (Inr \<lparr>stream = Some 1, contentType = None, contentLength = Some 1\<rparr>,
      snd (alloc (Readable_from [0xC3, 0xA9]) (heap_of abc_stream)))
   \<and> consumeBodyStream (Stream 1 :: unit js_value) 0
        (snd (alloc (Readable_from [0xC3, 0xA9]) (heap_of abc_stream))) =
     Some (Inr [0xC3, 0xA9], snd (alloc (advance 1 (Readable_from [0xC3, 0xA9])) (heap_of abc_stream)))
   \<and> length [0xC3, 0xA9 :: byte] = 2"
proof -
  have f: "fresh (heap_of abc_stream) = 1" by (simp add: heap_of_def)
  show ?thesis
    using getBodyStream_Primitive[of no_formData "()" "JSString [0xE9]" "heap_of abc_stream"]
      consume_created[of "heap_of abc_stream" "[0xC3, 0xA9]", where ?'fd = unit]
    by (simp add: f Buffer_from_string_e_acute)
qed

end
